theory Spec2Isabelle
  imports Complex_Main
begin

section \<open>Data model of the location controller\<close>

text \<open>
  The embedding follows \<^verbatim>\<open>Shared/LocationController.cpp\<close> and the member declarations of
  \<^verbatim>\<open>Shared/LocationBroadcast.h\<close>. A C++ \<^verbatim>\<open>double\<close> that the controller stores,
  or adds and subtracts only to pass the result on, is read as the \<^typ>\<open>real\<close> it denotes.
  Two places keep more of the machine number. The threshold test of the viewer lambda, where a
  rounded difference decides a branch, is computed in binary64 arithmetic, and the azimuth of a
  compass reading, which is passed on unread, ranges over every value of a double, the
  infinities and NaN included. A pointer member is an \<open>option\<close>:
  \<open>None\<close> is \<^verbatim>\<open>nullptr\<close>. A \<^verbatim>\<open>QUrl\<close> of a local file is the string of its path.
  A Qt signal emitted by a member function is an element of the list the function returns
  next to the new state. The slots that \<^verbatim>\<open>initOverlay\<close> connects to these signals move
  the displayed graphic only and are not part of the model.
\<close>

subsection \<open>Double precision\<close>

text \<open>
  A value of a binary64 \<^verbatim>\<open>double\<close>: a finite number, an infinity or NaN. The sign of
  zero is not kept; no operation below tells the two zeros apart.
\<close>

datatype double = Finite real | PlusInfinity | MinusInfinity | NaN


text \<open>Rounding to the nearest whole number, a tie going to the even one.\<close>

definition round_half_even :: "real \<Rightarrow> int" where
  "round_half_even q =
     (let f = \<lfloor>q\<rfloor>; r = q - of_int f
      in if r < 1 / 2 then f else if 1 / 2 < r then f + 1 else if even f then f else f + 1)"

text \<open>
  The binary exponent of a positive number: starting from \<open>lo\<close> with \<open>k\<close> bits to set, the
  largest \<open>e\<close> below \<open>lo + 2 ^ k\<close> with \<open>2 powi e \<le> x\<close>, found by bisection.
\<close>

fun binade :: "nat \<Rightarrow> int \<Rightarrow> real \<Rightarrow> int" where
  "binade 0 lo x = lo"
| "binade (Suc k) lo x =
     (if 2 powi (lo + 2 ^ k) \<le> x then binade k (lo + 2 ^ k) x else binade k lo x)"

text \<open>
  The binary64 number nearest to a real, ties to even: 53 significant bits above the
  exponent -1022, the fixed spacing \<open>2 powi (- 1074)\<close> below it, and an infinity once the
  rounded magnitude reaches \<open>2 powi 1024\<close>.
\<close>

definition round64 :: "real \<Rightarrow> double" where
  "round64 x =
     (if x = 0 then Finite 0
      else
        (let e = max (binade 12 (- 2048) \<bar>x\<bar>) (- 1022);
             ulp = 2 powi (e - 52);
             y = of_int (round_half_even (x / ulp)) * ulp
         in if 2 powi 1024 \<le> y then PlusInfinity
            else if y \<le> - (2 powi 1024) then MinusInfinity
            else Finite y))"

text \<open>The difference of two finite doubles, \<^verbatim>\<open>std::abs\<close>, and the comparison \<^verbatim>\<open><\<close>.\<close>

definition double_sub :: "real \<Rightarrow> real \<Rightarrow> double" where
  "double_sub a b = round64 (a - b)"

fun double_abs :: "double \<Rightarrow> double" where
  "double_abs (Finite x) = Finite \<bar>x\<bar>"
| "double_abs PlusInfinity = PlusInfinity"
| "double_abs MinusInfinity = PlusInfinity"
| "double_abs NaN = NaN"

fun double_less :: "double \<Rightarrow> double \<Rightarrow> bool" where
  "double_less NaN b = False"
| "double_less a NaN = False"
| "double_less (Finite x) (Finite y) = (x < y)"
| "double_less (Finite x) PlusInfinity = True"
| "double_less (Finite x) MinusInfinity = False"
| "double_less MinusInfinity (Finite y) = True"
| "double_less MinusInfinity PlusInfinity = True"
| "double_less MinusInfinity MinusInfinity = False"
| "double_less PlusInfinity b = False"

text \<open>The literal \<^verbatim>\<open>0.1\<close>: the double nearest to one tenth.\<close>

definition double_0_1 :: double where
  "double_0_1 = round64 (1 / 10)"

subsection \<open>Positions, readings and the controller\<close>

datatype spatial_reference = Wgs84 | Wkid nat

text \<open>\<^verbatim>\<open>Esri::ArcGISRuntime::Point\<close>, built with or without a z value.\<close>

record point =
  px :: real
  py :: real
  pz :: "real option"
  psr :: spatial_reference

text \<open>What the positioning lambda reads of a \<^verbatim>\<open>QGeoPositionInfo\<close>.\<close>

datatype CoordinateType = InvalidCoordinate | Coordinate2D | Coordinate3D

record geo_coordinate =
  coord_isValid :: bool
  coord_type :: CoordinateType
  longitude :: real
  latitude :: real
  altitude :: real

record geo_position_info =
  info_isValid :: bool
  coordinate :: geo_coordinate

text \<open>A \<^verbatim>\<open>QCompassReading\<close>; \<^verbatim>\<open>QCompass::reading()\<close> may be null.\<close>

record compass_reading =
  azimuth :: double
  calibrationLevel :: real

text \<open>
  Modelled from the spec: \<^verbatim>\<open>GPXLocationSimulator\<close> (its source is not part of the files at
  hand). The track-log player is started and stopped by the controller and is pointed at a
  file; a file that cannot be read degrades to no data.
\<close>

record gpx_simulator =
  sim_started :: bool
  sim_gpxFile :: string
  sim_loaded :: bool

text \<open>The platform: the data directory, whether a default position source exists, the files.\<close>

record environment =
  dataPath :: string
  hasDefaultSource :: bool
  fileExists :: "string \<Rightarrow> bool"

text \<open>
  The members of \<^verbatim>\<open>LocationController\<close> that the member functions read and write. The
  position source and the compass are represented by their running flag, the graphics overlay
  by its visibility.
\<close>

record controller =
  m_enabled :: bool
  m_simulated :: bool
  m_simulator :: "gpx_simulator option"
  m_positionSource :: "bool option"
  m_compass :: "bool option"
  m_gpxFilePath :: string
  m_lastViewHeading :: real
  m_lastKnownHeading :: real
  m_locationOverlay :: "bool option"

datatype signal =
    positionChanged point
  | headingChanged double
  | relativeHeadingChanged real
  | enabledChanged
  | simulatedChanged
  | gpxFilePathChanged

text \<open>A call through a null pointer ends the process.\<close>

datatype crash = NullDereference

type_synonym outcome = "crash + controller \<times> signal list"

section \<open>The simulator and the platform source\<close>

text \<open>Modelled from the spec: a new \<^verbatim>\<open>GPXLocationSimulator\<close> is idle and has no file.\<close>

definition new_GPXLocationSimulator :: gpx_simulator where
  "new_GPXLocationSimulator = \<lparr>sim_started = False, sim_gpxFile = [], sim_loaded = False\<rparr>"

text \<open>Modelled from the spec: \<^verbatim>\<open>GPXLocationSimulator::setGpxFile\<close> re-points the player.\<close>

definition setGpxFile :: "environment \<Rightarrow> string \<Rightarrow> gpx_simulator \<Rightarrow> gpx_simulator" where
  "setGpxFile env fileName sim = sim\<lparr>sim_gpxFile := fileName, sim_loaded := fileExists env fileName\<rparr>"

text \<open>Modelled from the spec: \<^verbatim>\<open>startUpdates\<close> and \<^verbatim>\<open>stopUpdates\<close> of the player.\<close>

definition startUpdates :: "gpx_simulator \<Rightarrow> gpx_simulator" where
  "startUpdates sim = sim\<lparr>sim_started := True\<rparr>"

definition stopUpdates :: "gpx_simulator \<Rightarrow> gpx_simulator" where
  "stopUpdates sim = sim\<lparr>sim_started := False\<rparr>"

text \<open>
  \<^verbatim>\<open>QGeoPositionInfoSource::createDefaultSource\<close>: a stopped source, or \<^verbatim>\<open>nullptr\<close> when
  the system has none.
\<close>

definition createDefaultSource :: "environment \<Rightarrow> bool option" where
  "createDefaultSource env = (if hasDefaultSource env then Some False else None)"

section \<open>Member functions of the controller\<close>

text \<open>
  \<^verbatim>\<open>initPositionInfoSource\<close> and \<^verbatim>\<open>setGpxFilePath\<close> call each other: the first sets the
  packaged log on a simulator it has just made, the second makes sure the simulator exists.
  The member \<^verbatim>\<open>m_simulator\<close> is assigned before the inner call, which bounds the recursion.
\<close>

function initPositionInfoSource :: "environment \<Rightarrow> bool \<Rightarrow> controller \<Rightarrow> outcome"
  and setGpxFilePath :: "environment \<Rightarrow> string \<Rightarrow> controller \<Rightarrow> outcome"
where
  "initPositionInfoSource env simulated s =
     (if simulated \<and> m_simulator s = None then
        setGpxFilePath env (dataPath env @ ''/MontereyMounted.gpx'')
          (s\<lparr>m_simulator := Some new_GPXLocationSimulator\<rparr>)
      else if \<not> simulated \<and> m_positionSource s = None then
        Inr (s\<lparr>m_positionSource := createDefaultSource env, m_compass := Some False\<rparr>, [])
      else Inr (s, []))"
| "setGpxFilePath env gpxFilePath s =
     (if m_gpxFilePath s = gpxFilePath then Inr (s, [])
      else
        (case initPositionInfoSource env True s of
           Inl c \<Rightarrow> Inl c
         | Inr (s1, sigs) \<Rightarrow>
            (case m_simulator s1 of
               None \<Rightarrow> Inl NullDereference
             | Some sim \<Rightarrow>
                 Inr (s1\<lparr>m_simulator := Some (setGpxFile env gpxFilePath sim),
                         m_gpxFilePath := gpxFilePath\<rparr>,
                      sigs @ [gpxFilePathChanged]))))"
  by pat_completeness auto
termination
  by (relation "measure (\<lambda>x. case x of
          Inl (env, simulated, s) \<Rightarrow> (if m_simulator s = None then 2 else 0)
        | Inr (env, gpxFilePath, s) \<Rightarrow> (if m_simulator s = None then 3 else 1))") auto

definition setEnabled :: "environment \<Rightarrow> bool \<Rightarrow> controller \<Rightarrow> outcome" where
  "setEnabled env enabled s =
     (if m_enabled s = enabled then Inr (s, [])
      else
        (case initPositionInfoSource env (m_simulated s) s of
           Inl c \<Rightarrow> Inl c
         | Inr (s1, sigs) \<Rightarrow>
            (let s2 = (case m_locationOverlay s1 of
                         None \<Rightarrow> s1
                       | Some visible \<Rightarrow> s1\<lparr>m_locationOverlay := Some enabled\<rparr>)
             in if m_simulated s2 then
                  (case m_simulator s2 of
                     None \<Rightarrow> Inl NullDereference
                   | Some sim \<Rightarrow>
                       Inr (s2\<lparr>m_simulator :=
                                 Some (if enabled then startUpdates sim else stopUpdates sim),
                               m_enabled := enabled\<rparr>,
                            sigs @ [enabledChanged]))
                else
                  (case m_positionSource s2 of
                     None \<Rightarrow> Inl NullDereference
                   | Some running \<Rightarrow>
                      (case m_compass s2 of
                         None \<Rightarrow> Inl NullDereference
                       | Some active \<Rightarrow>
                           Inr (s2\<lparr>m_positionSource := Some enabled,
                                   m_compass := Some enabled,
                                   m_enabled := enabled\<rparr>,
                                sigs @ [enabledChanged]))))))"

definition setSimulated :: "environment \<Rightarrow> bool \<Rightarrow> controller \<Rightarrow> outcome" where
  "setSimulated env simulated s =
     (if m_simulated s = simulated then Inr (s, [])
      else
        (case (if simulated then initPositionInfoSource env simulated s else Inr (s, [])) of
           Inl c \<Rightarrow> Inl c
         | Inr (s1, sigs) \<Rightarrow> Inr (s1\<lparr>m_simulated := simulated\<rparr>, sigs @ [simulatedChanged])))"

text \<open>
  \<^verbatim>\<open>locationOverlay\<close> makes the overlay on first use, visible as a new graphics overlay
  is; the symbols and the renderer that \<^verbatim>\<open>initOverlay\<close> builds are display matters and
  are left out.
\<close>

definition locationOverlay :: "controller \<Rightarrow> controller" where
  "locationOverlay s =
     (if m_locationOverlay s = None then s\<lparr>m_locationOverlay := Some True\<rparr> else s)"

section \<open>The connected lambdas\<close>

text \<open>The slot of \<^verbatim>\<open>GPXLocationSimulator::positionUpdateAvailable\<close>.\<close>

definition on_positionUpdateAvailable ::
  "point \<Rightarrow> real \<Rightarrow> controller \<Rightarrow> controller \<times> signal list" where
  "on_positionUpdateAvailable pos heading s =
     (let s1 = s\<lparr>m_lastKnownHeading := heading\<rparr>
      in (s1, [positionChanged pos, headingChanged (Finite heading),
               relativeHeadingChanged (heading - m_lastViewHeading s1)]))"

text \<open>The slot of \<^verbatim>\<open>QGeoPositionInfoSource::positionUpdated\<close>.\<close>

definition on_positionUpdated ::
  "geo_position_info \<Rightarrow> controller \<Rightarrow> controller \<times> signal list" where
  "on_positionUpdated update s =
     (if \<not> info_isValid update then (s, [])
      else
        (let pos = coordinate update
         in if \<not> coord_isValid pos then (s, [])
            else
              (case coord_type pos of
                 Coordinate2D \<Rightarrow>
                   (s, [positionChanged
                          \<lparr>px = longitude pos, py = latitude pos, pz = None, psr = Wgs84\<rparr>])
               | Coordinate3D \<Rightarrow>
                   (s, [positionChanged
                          \<lparr>px = longitude pos, py = latitude pos, pz = Some (altitude pos),
                           psr = Wgs84\<rparr>])
               | InvalidCoordinate \<Rightarrow> (s, []))))"

text \<open>
  The slot of \<^verbatim>\<open>QCompass::readingChanged\<close>; the argument is \<^verbatim>\<open>m_compass->reading()\<close>.
  Only the pointer is tested; the azimuth goes out as it came in.
\<close>

definition on_readingChanged ::
  "compass_reading option \<Rightarrow> controller \<Rightarrow> controller \<times> signal list" where
  "on_readingChanged reading s =
     (case reading of
        None \<Rightarrow> (s, [])
      | Some r \<Rightarrow> (s, [headingChanged (azimuth r)]))"

text \<open>
  The slot of \<^verbatim>\<open>SceneQuickView::viewpointChanged\<close> that \<^verbatim>\<open>setRelativeHeadingSceneView\<close>
  connects; the argument is the heading of the current viewpoint camera.
\<close>

definition on_viewpointChanged :: "real \<Rightarrow> controller \<Rightarrow> controller \<times> signal list" where
  "on_viewpointChanged sceneViewHeading s =
     (if double_less (double_abs (double_sub (m_lastViewHeading s) sceneViewHeading)) double_0_1
      then (s, [])
      else
        (let s1 = s\<lparr>m_lastViewHeading := sceneViewHeading\<rparr>
         in if \<not> m_enabled s1
            then (s1, [relativeHeadingChanged (m_lastKnownHeading s1 + m_lastViewHeading s1)])
            else (s1, [])))"

section \<open>Calls and events in sequence\<close>

text \<open>
  What can reach the controller: a call of a public member function, or an event that runs
  one of the lambdas above.
\<close>

datatype action =
    SetEnabled bool
  | SetSimulated bool
  | SetGpxFilePath string
  | LocationOverlay
  | SimulatorUpdate point real
  | PositionUpdate geo_position_info
  | CompassChange "compass_reading option"
  | ViewpointChange real

fun step :: "environment \<Rightarrow> action \<Rightarrow> controller \<Rightarrow> outcome" where
  "step env (SetEnabled enabled) s = setEnabled env enabled s"
| "step env (SetSimulated simulated) s = setSimulated env simulated s"
| "step env (SetGpxFilePath gpxFilePath) s = setGpxFilePath env gpxFilePath s"
| "step env LocationOverlay s = Inr (locationOverlay s, [])"
| "step env (SimulatorUpdate pos heading) s = Inr (on_positionUpdateAvailable pos heading s)"
| "step env (PositionUpdate update) s = Inr (on_positionUpdated update s)"
| "step env (CompassChange reading) s = Inr (on_readingChanged reading s)"
| "step env (ViewpointChange sceneViewHeading) s = Inr (on_viewpointChanged sceneViewHeading s)"

text \<open>A crash ends the run; otherwise the signals of the steps are collected in order.\<close>

fun run :: "environment \<Rightarrow> action list \<Rightarrow> controller \<Rightarrow> outcome" where
  "run env [] s = Inr (s, [])"
| "run env (a # as) s =
     (case step env a s of
        Inl c \<Rightarrow> Inl c
      | Inr (s1, sigs1) \<Rightarrow>
         (case run env as s1 of
            Inl c \<Rightarrow> Inl c
          | Inr (s2, sigs2) \<Rightarrow> Inr (s2, sigs1 @ sigs2)))"

text \<open>Which producer is delivering updates.\<close>

definition live_started :: "controller \<Rightarrow> bool" where
  "live_started s = (m_positionSource s = Some True)"

definition simulator_started :: "controller \<Rightarrow> bool" where
  "simulator_started s = (case m_simulator s of None \<Rightarrow> False | Some sim \<Rightarrow> sim_started sim)"

fun is_update :: "signal \<Rightarrow> bool" where
  "is_update (positionChanged p) = True"
| "is_update (headingChanged h) = True"
| "is_update (relativeHeadingChanged r) = True"
| "is_update enabledChanged = False"
| "is_update simulatedChanged = False"
| "is_update gpxFilePathChanged = False"

text \<open>
  The relative heading as the specification words it: the difference of the absolute heading
  and the viewer heading, reduced modulo 360 into the range from 0 up to 360.
\<close>

definition spec_relativeHeading :: "real \<Rightarrow> real \<Rightarrow> real" where
  "spec_relativeHeading absoluteHeading viewerHeading =
     (absoluteHeading - viewerHeading)
       - 360 * of_int \<lfloor>(absoluteHeading - viewerHeading) / 360\<rfloor>"

section \<open>The broadcast publisher's members\<close>

text \<open>
  The data members of \<^verbatim>\<open>LocationBroadcast\<close> with the initialisers the class declaration
  gives them. A member without an initialiser is default-constructed: an empty point, an empty
  string. The message and the connection handle carry no initialiser and are left out.
\<close>

record location_broadcast =
  m_enabled_lb :: bool
  m_location :: "point option"
  m_useCurrentLocation :: bool
  m_messageType :: string
  m_udpPort :: int
  m_frequency :: int
  m_messageSender :: "unit option"
  m_timer :: "unit option"

definition LocationBroadcast_members :: location_broadcast where
  "LocationBroadcast_members =
     \<lparr>m_enabled_lb = True, m_location = None, m_useCurrentLocation = True, m_messageType = [],
      m_udpPort = - 1, m_frequency = 3000, m_messageSender = None, m_timer = None\<rparr>"

section \<open>Concrete platforms and states\<close>

text \<open>A device with positioning hardware and the packaged track log installed.\<close>

definition env_device :: environment where
  "env_device =
     \<lparr>dataPath = ''/data'', hasDefaultSource = True,
      fileExists = (\<lambda>f. f = ''/data/MontereyMounted.gpx'')\<rparr>"

text \<open>A device with no positioning source and no track log at all.\<close>

definition env_bare :: environment where
  "env_bare = \<lparr>dataPath = ''/data'', hasDefaultSource = False, fileExists = (\<lambda>f. False)\<rparr>"

text \<open>A controller on which nothing has been called yet: Live mode, updates off.\<close>

definition idle :: controller where
  "idle =
     \<lparr>m_enabled = False, m_simulated = False, m_simulator = None, m_positionSource = None,
      m_compass = None, m_gpxFilePath = [], m_lastViewHeading = 0, m_lastKnownHeading = 0,
      m_locationOverlay = None\<rparr>"

text \<open>Live mode with the position source and the compass running.\<close>

definition live_running :: controller where
  "live_running =
     idle\<lparr>m_enabled := True, m_positionSource := Some True, m_compass := Some True\<rparr>"

text \<open>Simulated mode with the player running on the packaged log, the viewer turned to 20.\<close>

definition replaying :: controller where
  "replaying =
     idle\<lparr>m_enabled := True, m_simulated := True,
          m_simulator := Some \<lparr>sim_started = True, sim_gpxFile = ''/data/MontereyMounted.gpx'',
                                sim_loaded = True\<rparr>,
          m_gpxFilePath := ''/data/MontereyMounted.gpx'', m_lastViewHeading := 20\<rparr>"

text \<open>A recorded waypoint and two platform fixes.\<close>

definition monterey :: point where
  "monterey = \<lparr>px = - 1219 / 10, py = 366 / 10, pz = None, psr = Wgs84\<rparr>"

definition fix3d :: geo_position_info where
  "fix3d =
     \<lparr>info_isValid = True,
      coordinate = \<lparr>coord_isValid = True, coord_type = Coordinate3D, longitude = - 117,
                    latitude = 34, altitude = 250\<rparr>\<rparr>"

definition fix_bad :: geo_position_info where
  "fix_bad =
     \<lparr>info_isValid = True,
      coordinate = \<lparr>coord_isValid = False, coord_type = InvalidCoordinate, longitude = 0,
                    latitude = 0, altitude = 0\<rparr>\<rparr>"

text \<open>Live mode left running, the mode flag switched to Simulated on the packaged log.\<close>

definition switched :: controller where
  "switched =
     live_running\<lparr>m_simulated := True,
                  m_simulator := Some \<lparr>sim_started = False,
                                        sim_gpxFile = ''/data/MontereyMounted.gpx'',
                                        sim_loaded = True\<rparr>,
                  m_gpxFilePath := ''/data/MontereyMounted.gpx''\<rparr>"

text \<open>The same with the player started as well.\<close>

definition both_running :: controller where
  "both_running =
     switched\<lparr>m_simulator := Some \<lparr>sim_started = True,
                                     sim_gpxFile = ''/data/MontereyMounted.gpx'',
                                     sim_loaded = True\<rparr>\<rparr>"

text \<open>Simulated mode entered on the bare device: the packaged log could not be loaded.\<close>

definition no_log :: controller where
  "no_log =
     idle\<lparr>m_simulated := True,
          m_simulator := Some \<lparr>sim_started = False,
                                sim_gpxFile = ''/data/MontereyMounted.gpx'',
                                sim_loaded = False\<rparr>,
          m_gpxFilePath := ''/data/MontereyMounted.gpx''\<rparr>"

text \<open>A compass reading.\<close>

definition north_east :: compass_reading where
  "north_east = \<lparr>azimuth = Finite 45, calibrationLevel = 1\<rparr>"


text \<open>
  The double nearest to 0.025, and a controller with updates off whose viewer heading it is.
  From there to 0.125 is less than one tenth; the difference computed in doubles is the
  double 0.1 itself.
\<close>

definition double_0_025 :: real where
  "double_0_025 = 7205759403792794 / 2 ^ 58"

definition nudged :: controller where
  "nudged = idle\<lparr>m_lastViewHeading := double_0_025\<rparr>"

text \<open>The one event that comes from the track-log player.\<close>

fun is_simulator_update :: "action \<Rightarrow> bool" where
  "is_simulator_update (SimulatorUpdate pos heading) = True"
| "is_simulator_update a = False"

section \<open>The threshold test at concrete headings\<close>

text \<open>
  The double 0.1 is 3602879701896397 / 2 ^ 55, a little above one tenth. Differences of whole
  numbers of degrees are exact; the difference of 0.125 and the double 0.025 lies halfway
  between the double 0.1 and the double below it and rounds to the former.
\<close>

lemma double_0_1_value: "double_0_1 = Finite (3602879701896397 / 36028797018963968)"
  by (simp add: double_0_1_def round64_def round_half_even_def Let_def eval_nat_numeral
      power_int_minus)

lemma double_sub_whole:
  "double_sub 0 30 = Finite (- 30)"
  "double_sub 0 45 = Finite (- 45)"
  "double_sub 0 90 = Finite (- 90)"
  "double_sub 0 (1 / 16) = Finite (- (1 / 16))"
  by (simp_all add: double_sub_def round64_def round_half_even_def Let_def eval_nat_numeral
      power_int_minus)

lemma double_sub_nudged:
  "double_sub double_0_025 (1 / 8) = Finite (- (3602879701896397 / 36028797018963968))"
  by (simp add: double_0_025_def double_sub_def round64_def round_half_even_def Let_def
      eval_nat_numeral power_int_minus)

section \<open>Rounding and the threshold\<close>

text \<open>
  The bisection finds the binary exponent: the result is at least \<open>lo\<close>, the power of two
  at the result is at most the number, the next power is above it, and no exponent in range
  with that property is larger.
\<close>

lemma p2_le: "(2::real) powi m \<le> 2 powi n \<longleftrightarrow> m \<le> n"
proof
  assume a: "(2::real) powi m \<le> 2 powi n"
  show "m \<le> n"
  proof (rule ccontr)
    assume "\<not> m \<le> n"
    then have "n < m" by simp
    then have "(2::real) powi n < 2 powi m" by (rule power_int_strict_increasing) simp
    with a show False by simp
  qed
next
  assume "m \<le> n"
  then show "(2::real) powi m \<le> 2 powi n" by (rule power_int_increasing) simp
qed

lemma p2_less: "(2::real) powi m < 2 powi n \<longleftrightarrow> m < n"
  using p2_le [of n m] by (simp add: not_le [symmetric])

lemma binade_ge: "lo \<le> binade k lo x"
proof (induction k arbitrary: lo)
  case 0
  show ?case by simp
next
  case (Suc k)
  have "lo \<le> lo + 2 ^ k" by simp
  also have "\<dots> \<le> binade k (lo + 2 ^ k) x" by (rule Suc.IH)
  finally show ?case using Suc.IH [of lo] by simp
qed

lemma binade_below: "2 powi lo \<le> x \<Longrightarrow> 2 powi (binade k lo x) \<le> x"
  by (induction k arbitrary: lo) simp_all

lemma binade_above: "x < 2 powi (lo + 2 ^ k) \<Longrightarrow> x < 2 powi (binade k lo x + 1)"
proof (induction k arbitrary: lo)
  case 0
  then show ?case by simp
next
  case (Suc k)
  have "lo + 2 ^ k + 2 ^ k = lo + 2 ^ Suc k" by simp
  with Suc.prems have "x < 2 powi (lo + 2 ^ k + 2 ^ k)" by (simp only:)
  from Suc.IH [OF this] Suc.IH [of lo] show ?case by (simp add: not_le)
qed

lemma binade_small: "x < 2 powi lo \<Longrightarrow> binade k lo x = lo"
proof (induction k arbitrary: lo)
  case 0
  show ?case by simp
next
  case (Suc k)
  have "(2::real) powi lo \<le> 2 powi (lo + 2 ^ k)" by (simp add: p2_le)
  with Suc.prems have "\<not> 2 powi (lo + 2 ^ k) \<le> x" by simp
  with Suc show ?case by simp
qed

lemma binade_max: "2 powi t \<le> x \<Longrightarrow> lo \<le> t \<Longrightarrow> t < lo + 2 ^ k \<Longrightarrow> t \<le> binade k lo x"
proof (induction k arbitrary: lo)
  case 0
  then show ?case by simp
next
  case (Suc k)
  show ?case
  proof (cases "2 powi (lo + 2 ^ k) \<le> x")
    case True
    show ?thesis
    proof (cases "lo + 2 ^ k \<le> t")
      case True
      from Suc.prems(3) have "t < lo + 2 ^ k + 2 ^ k" by simp
      from Suc.IH [OF Suc.prems(1) True this] \<open>2 powi (lo + 2 ^ k) \<le> x\<close> show ?thesis by simp
    next
      case False
      with binade_ge [of "lo + 2 ^ k" k x] \<open>2 powi (lo + 2 ^ k) \<le> x\<close> show ?thesis by simp
    qed
  next
    case False
    with Suc.prems(1) have "(2::real) powi t < 2 powi (lo + 2 ^ k)" by simp
    then have "t < lo + 2 ^ k" by (simp add: p2_less)
    from Suc.IH [OF Suc.prems(1) Suc.prems(2) this] False show ?thesis by simp
  qed
qed

text \<open>Rounding to a whole number moves by at most a half; at an even bound the tie goes up.\<close>

lemma rhe_close: "\<bar>q - of_int (round_half_even q)\<bar> \<le> 1 / 2"
  unfolding round_half_even_def Let_def by (auto simp: abs_le_iff; linarith)

lemma rhe_upper: "\<bar>q\<bar> \<le> of_int K \<Longrightarrow> \<bar>round_half_even q\<bar> \<le> K"
  using rhe_close [of q] by linarith

lemma rhe_lower: "of_int K \<le> \<bar>q\<bar> \<Longrightarrow> K \<le> \<bar>round_half_even q\<bar>"
  using rhe_close [of q] by linarith

lemma rhe_lt:
  assumes "even N"
  shows "(round_half_even q < N) = (q < of_int N - 1 / 2)"
proof -
  define f where "f = \<lfloor>q\<rfloor>"
  have lo: "of_int f \<le> q" and hi: "q < of_int f + 1" by (simp_all add: f_def)
  consider "f \<le> N - 2" | "f = N - 1" | "N \<le> f" by linarith
  then show ?thesis
  proof cases
    case 1
    then have "(of_int f :: real) \<le> of_int (N - 2)" by (simp only: of_int_le_iff)
    then have "of_int f \<le> (of_int N :: real) - 2" by simp
    with hi have "q < of_int N - 1 / 2" by linarith
    moreover from 1 have "round_half_even q < N"
      by (auto simp: round_half_even_def Let_def f_def [symmetric])
    ultimately show ?thesis by simp
  next
    case 2
    then have fr: "(of_int f :: real) = of_int N - 1" by simp
    from 2 assms have odd: "odd f" by simp
    show ?thesis
      using fr odd 2 by (auto simp: round_half_even_def Let_def f_def [symmetric]; linarith)
  next
    case 3
    then have "(of_int N :: real) \<le> of_int f" by simp
    with lo have "\<not> q < of_int N - 1 / 2" by linarith
    moreover from 3 have "\<not> round_half_even q < N"
      by (auto simp: round_half_even_def Let_def f_def [symmetric])
    ultimately show ?thesis by simp
  qed
qed

lemma rhe_gt:
  assumes "even N"
  shows "(- N < round_half_even q) = (- (of_int N - 1 / 2) < q)"
proof -
  define f where "f = \<lfloor>q\<rfloor>"
  have lo: "of_int f \<le> q" and hi: "q < of_int f + 1" by (simp_all add: f_def)
  consider "f \<le> - N - 1" | "f = - N" | "- N + 1 \<le> f" by linarith
  then show ?thesis
  proof cases
    case 1
    then have "(of_int f :: real) \<le> of_int (- N - 1)" by (simp only: of_int_le_iff)
    then have "of_int f \<le> - (of_int N :: real) - 1" by simp
    with hi have "\<not> - (of_int N - 1 / 2) < q" by linarith
    moreover from 1 have "\<not> - N < round_half_even q"
      by (auto simp: round_half_even_def Let_def f_def [symmetric])
    ultimately show ?thesis by simp
  next
    case 2
    then have fr: "(of_int f :: real) = - of_int N" by simp
    from 2 assms have ev: "even f" by simp
    show ?thesis
      using fr ev 2 by (auto simp: round_half_even_def Let_def f_def [symmetric]; linarith)
  next
    case 3
    then have "(of_int (- N + 1) :: real) \<le> of_int f" by (simp only: of_int_le_iff)
    then have "- (of_int N :: real) + 1 \<le> of_int f" by simp
    with lo have "- (of_int N - 1 / 2) < q" by linarith
    moreover from 3 have "- N < round_half_even q"
      by (auto simp: round_half_even_def Let_def f_def [symmetric])
    ultimately show ?thesis by simp
  qed
qed

lemma rhe_abs_lt:
  assumes "even N"
  shows "(\<bar>round_half_even q\<bar> < N) = (\<bar>q\<bar> < of_int N - 1 / 2)"
  using rhe_lt [OF assms, of q] rhe_gt [OF assms, of q] by (auto simp: abs_less_iff)

lemma p2_quot: "(2::real) powi a / 2 powi b = 2 powi (a - b)"
  by (simp add: power_int_diff)

lemma p2_prod: "(2::real) powi a * 2 powi b = 2 powi (a + b)"
  by (simp add: power_int_add)

text \<open>
  The threshold in exact terms. The double 0.1 has an even last bit, so a difference rounds to
  it, or to something larger, exactly from the midpoint between it and the double below it
  onwards: 14411518807585587 / 2 ^ 57, about 0.09999999999999999861.
\<close>

lemma below_double_0_1_iff:
  "double_less (double_abs (round64 x)) double_0_1 = (\<bar>x\<bar> < 14411518807585587 / 2 ^ 57)"
proof (cases "x = 0")
  case True
  then show ?thesis by (simp add: round64_def double_0_1_value)
next
  case False
  define a where "a = \<bar>x\<bar>"
  define eb where "eb = binade 12 (- 2048) a"
  define e where "e = max eb (- 1022)"
  define ulp :: real where "ulp = 2 powi (e - 52)"
  define n where "n = round_half_even (x / ulp)"
  define y :: real where "y = of_int n * ulp"
  have apos: "0 < a" using False by (simp add: a_def)
  have ulp_pos: "0 < ulp" by (simp add: ulp_def)
  have r: "round64 x = (if 2 powi 1024 \<le> y then PlusInfinity
                        else if y \<le> - (2 powi 1024) then MinusInfinity else Finite y)"
    using False by (simp add: round64_def Let_def y_def n_def ulp_def e_def eb_def a_def)
  have q_abs: "\<bar>x / ulp\<bar> = a / ulp" using ulp_pos by (simp add: a_def)
  have y_abs: "\<bar>y\<bar> = of_int \<bar>n\<bar> * ulp" using ulp_pos by (simp add: y_def abs_mult)
  consider (B) "a < 1 / 16" | (C) "1 / 16 \<le> a" "a < 1 / 8" | (D) "1 / 8 \<le> a" by linarith
  then show ?thesis
  proof cases
    case B
    have e_le: "e \<le> - 5"
    proof (cases "a < 2 powi (- 2048)")
      case True
      then have "eb = - 2048" unfolding eb_def by (rule binade_small)
      then show ?thesis by (simp add: e_def)
    next
      case False
      then have "2 powi (- 2048) \<le> a" by simp
      then have "2 powi eb \<le> a" unfolding eb_def by (rule binade_below)
      with B have "(2::real) powi eb < 2 powi (- 4)" by (simp add: power_int_minus)
      then have "eb < - 4" by (simp only: p2_less)
      then show ?thesis by (simp add: e_def)
    qed
    have "a < 2 powi (- 2048 + 2 ^ 12)" using B by simp
    then have "a < 2 powi (eb + 1)" unfolding eb_def by (rule binade_above)
    also have "\<dots> \<le> 2 powi (e + 1)" by (simp only: p2_le) (simp add: e_def)
    finally have a_lt: "a < 2 powi (e + 1)" .
    have "a / ulp < 2 powi (e + 1) / ulp" using a_lt ulp_pos by (simp add: divide_strict_right_mono)
    also have "\<dots> = 2 powi 53" by (simp add: ulp_def p2_quot)
    finally have "\<bar>x / ulp\<bar> \<le> of_int (2 ^ 53)" using q_abs by simp
    then have "\<bar>n\<bar> \<le> 2 ^ 53" unfolding n_def by (rule rhe_upper)
    then have "(of_int \<bar>n\<bar> :: real) \<le> of_int (2 ^ 53)" by (simp only: of_int_le_iff)
    then have "(of_int \<bar>n\<bar> :: real) \<le> 2 powi 53" by simp
    then have "\<bar>y\<bar> \<le> 2 powi 53 * ulp" using ulp_pos by (simp add: y_abs)
    also have "\<dots> = 2 powi (e + 1)"
    proof -
      have "53 + (e - 52) = e + 1" by simp
      then show ?thesis unfolding ulp_def p2_prod by (simp only:)
    qed
    also have "\<dots> \<le> 2 powi (- 4)"
    proof -
      have "e + 1 \<le> - 4" using e_le by simp
      then show ?thesis by (simp only: p2_le)
    qed
    finally have y_le: "\<bar>y\<bar> \<le> 1 / 16" by (simp add: power_int_minus)
    then have "round64 x = Finite y" using r by (auto simp: abs_le_iff)
    with y_le B show ?thesis by (simp add: double_0_1_value a_def)
  next
    case C
    have "2 powi (- 2048) \<le> a" using C(1) by (simp add: power_int_minus)
    then have "2 powi eb \<le> a" unfolding eb_def by (rule binade_below)
    with C(2) have "(2::real) powi eb < 2 powi (- 3)" by (simp add: power_int_minus)
    then have "eb < - 3" by (simp only: p2_less)
    moreover have "- 4 \<le> eb" unfolding eb_def
      by (rule binade_max) (use C(1) in \<open>simp_all add: power_int_minus\<close>)
    ultimately have e: "e = - 4" by (simp add: e_def)
    have ulp: "ulp = 1 / 2 ^ 56" by (simp add: ulp_def e power_int_minus_divide)
    have lt: "(\<bar>n\<bar> < 7205759403792794) = (\<bar>x / ulp\<bar> < of_int 7205759403792794 - 1 / 2)"
      unfolding n_def by (rule rhe_abs_lt) simp
    have "a / ulp < 2 ^ 53" using C(2) by (simp add: ulp)
    then have "\<bar>x / ulp\<bar> \<le> of_int (2 ^ 53)" using q_abs by simp
    then have "\<bar>n\<bar> \<le> 2 ^ 53" unfolding n_def by (rule rhe_upper)
    then have "(of_int \<bar>n\<bar> :: real) \<le> of_int (2 ^ 53)" by (simp only: of_int_le_iff)
    then have "(of_int \<bar>n\<bar> :: real) \<le> 2 ^ 53" by simp
    then have "\<bar>y\<bar> \<le> 2 / 16" by (simp add: y_abs ulp)
    then have fin: "round64 x = Finite y" using r by (auto simp: abs_le_iff)
    have "(\<bar>y\<bar> < 3602879701896397 / 36028797018963968) = (of_int \<bar>n\<bar> < (7205759403792794 :: real))"
      by (simp add: y_abs ulp)
    also have "\<dots> = (\<bar>n\<bar> < 7205759403792794)"
      using of_int_less_iff [of "\<bar>n\<bar>" 7205759403792794, where ?'a = real] by simp
    also have "\<dots> = (a / ulp < of_int 7205759403792794 - 1 / 2)"
      using lt by (simp only: q_abs)
    also have "\<dots> = (a < 14411518807585587 / 2 ^ 57)"
      by (simp add: ulp) linarith
    finally show ?thesis by (simp add: fin double_0_1_value a_def)
  next
    case D
    have "2 powi (- 2048) \<le> a" using D by (simp add: power_int_minus)
    then have below: "2 powi eb \<le> a" unfolding eb_def by (rule binade_below)
    have "- 3 \<le> eb" unfolding eb_def
      by (rule binade_max) (use D in \<open>simp_all add: power_int_minus\<close>)
    then have e: "e = eb" and e_ge: "- 3 \<le> e" by (simp_all add: e_def)
    have "2 powi eb / ulp \<le> a / ulp" using below ulp_pos by (simp add: divide_right_mono)
    moreover have "2 powi eb / ulp = 2 powi 52" by (simp add: ulp_def e p2_quot)
    ultimately have "of_int (2 ^ 52) \<le> \<bar>x / ulp\<bar>" using q_abs by simp
    then have "2 ^ 52 \<le> \<bar>n\<bar>" unfolding n_def by (rule rhe_lower)
    then have "(of_int (2 ^ 52) :: real) \<le> of_int \<bar>n\<bar>" by (simp only: of_int_le_iff)
    then have "(2::real) powi 52 \<le> of_int \<bar>n\<bar>" by simp
    then have "2 powi 52 * ulp \<le> \<bar>y\<bar>" using ulp_pos by (simp add: y_abs)
    moreover have "2 powi 52 * ulp = 2 powi e"
    proof -
      have "52 + (e - 52) = e" by simp
      then show ?thesis unfolding ulp_def p2_prod by (simp only:)
    qed
    moreover have "(2::real) powi (- 3) \<le> 2 powi e" using e_ge by (simp only: p2_le)
    ultimately have y_ge: "1 / 8 \<le> \<bar>y\<bar>" by (simp add: power_int_minus)
    have "\<not> double_less (double_abs (round64 x)) double_0_1"
      using y_ge by (simp add: r double_0_1_value)
    with D show ?thesis by (simp add: a_def)
  qed
qed

section \<open>The two mutually recursive members, unfolded\<close>

text \<open>
  The recursive equations are used one unfolding at a time. With a simulator present
  \<^verbatim>\<open>initPositionInfoSource(true)\<close> does nothing; without one it makes the simulator and sets
  the packaged log on it.
\<close>

declare initPositionInfoSource.simps [simp del] setGpxFilePath.simps [simp del]

lemma init_simulator_present:
  "m_simulator s = Some sim \<Longrightarrow> initPositionInfoSource env True s = Inr (s, [])"
  by (simp add: initPositionInfoSource.simps)

lemma setGpxFilePath_present:
  "m_simulator s = Some sim \<Longrightarrow>
   setGpxFilePath env p s =
     (if m_gpxFilePath s = p then Inr (s, [])
      else Inr (s\<lparr>m_simulator := Some (setGpxFile env p sim), m_gpxFilePath := p\<rparr>,
                [gpxFilePathChanged]))"
  by (simp add: setGpxFilePath.simps [of env p s] init_simulator_present)

lemma init_simulator_absent:
  "m_simulator s = None \<Longrightarrow>
   initPositionInfoSource env True s =
     (if m_gpxFilePath s = dataPath env @ ''/MontereyMounted.gpx''
      then Inr (s\<lparr>m_simulator := Some new_GPXLocationSimulator\<rparr>, [])
      else Inr (s\<lparr>m_simulator :=
                     Some (setGpxFile env (dataPath env @ ''/MontereyMounted.gpx'')
                             new_GPXLocationSimulator),
                   m_gpxFilePath := dataPath env @ ''/MontereyMounted.gpx''\<rparr>,
                [gpxFilePathChanged]))"
  by (simp add: initPositionInfoSource.simps [of env True s] setGpxFilePath_present)

lemma init_live:
  "initPositionInfoSource env False s =
     (if m_positionSource s = None
      then Inr (s\<lparr>m_positionSource := createDefaultSource env, m_compass := Some False\<rparr>, [])
      else Inr (s, []))"
  by (simp add: initPositionInfoSource.simps)

section \<open>What the members leave alone\<close>

text \<open>
  None of the member functions writes the last known heading, and none emits a position or
  heading update: those come from the connected lambdas only.
\<close>

lemma init_frame:
  assumes "initPositionInfoSource env simulated s = Inr (s', sigs)"
  shows "m_lastKnownHeading s' = m_lastKnownHeading s" and "list_all (\<lambda>x. \<not> is_update x) sigs"
  using assms
  by (cases simulated; cases "m_simulator s";
      auto simp: init_simulator_absent init_simulator_present init_live split: if_splits)+

lemma setGpxFilePath_frame:
  assumes "setGpxFilePath env p s = Inr (s', sigs)"
  shows "m_lastKnownHeading s' = m_lastKnownHeading s" and "list_all (\<lambda>x. \<not> is_update x) sigs"
proof -
  show "m_lastKnownHeading s' = m_lastKnownHeading s"
  proof (cases "m_gpxFilePath s = p")
    case True
    with assms show ?thesis by (simp add: setGpxFilePath.simps [of env p s])
  next
    case False
    with assms obtain s1 sigs1 where i: "initPositionInfoSource env True s = Inr (s1, sigs1)"
      and h: "m_lastKnownHeading s' = m_lastKnownHeading s1"
      by (auto simp: setGpxFilePath.simps [of env p s] split: sum.splits option.splits)
    from init_frame(1) [OF i] h show ?thesis by simp
  qed
  show "list_all (\<lambda>x. \<not> is_update x) sigs"
  proof (cases "m_gpxFilePath s = p")
    case True
    with assms show ?thesis by (simp add: setGpxFilePath.simps [of env p s])
  next
    case False
    with assms obtain s1 sigs1 where i: "initPositionInfoSource env True s = Inr (s1, sigs1)"
      and h: "sigs = sigs1 @ [gpxFilePathChanged]"
      by (auto simp: setGpxFilePath.simps [of env p s] split: sum.splits option.splits)
    from init_frame(2) [OF i] h show ?thesis by simp
  qed
qed

lemma setEnabled_frame:
  assumes "setEnabled env enabled s = Inr (s', sigs)"
  shows "m_lastKnownHeading s' = m_lastKnownHeading s" and "list_all (\<lambda>x. \<not> is_update x) sigs"
proof -
  show "m_lastKnownHeading s' = m_lastKnownHeading s"
  proof (cases "m_enabled s = enabled")
    case True
    with assms show ?thesis by (simp add: setEnabled_def)
  next
    case False
    with assms obtain s1 sigs1 where
      i: "initPositionInfoSource env (m_simulated s) s = Inr (s1, sigs1)"
      and h: "m_lastKnownHeading s' = m_lastKnownHeading s1"
      by (auto simp: setEnabled_def Let_def split: sum.splits option.splits if_splits)
    from init_frame(1) [OF i] h show ?thesis by simp
  qed
  show "list_all (\<lambda>x. \<not> is_update x) sigs"
  proof (cases "m_enabled s = enabled")
    case True
    with assms show ?thesis by (simp add: setEnabled_def)
  next
    case False
    with assms obtain s1 sigs1 where
      i: "initPositionInfoSource env (m_simulated s) s = Inr (s1, sigs1)"
      and h: "sigs = sigs1 @ [enabledChanged]"
      by (auto simp: setEnabled_def Let_def split: sum.splits option.splits if_splits)
    from init_frame(2) [OF i] h show ?thesis by simp
  qed
qed

lemma setSimulated_frame:
  assumes "setSimulated env simulated s = Inr (s', sigs)"
  shows "m_lastKnownHeading s' = m_lastKnownHeading s" and "list_all (\<lambda>x. \<not> is_update x) sigs"
proof -
  have "m_lastKnownHeading s' = m_lastKnownHeading s \<and> list_all (\<lambda>x. \<not> is_update x) sigs"
  proof (cases "m_simulated s = simulated \<or> \<not> simulated")
    case True
    with assms show ?thesis by (auto simp: setSimulated_def split: if_splits)
  next
    case False
    with assms obtain s1 sigs1 where
      i: "initPositionInfoSource env simulated s = Inr (s1, sigs1)"
      and h: "m_lastKnownHeading s' = m_lastKnownHeading s1" "sigs = sigs1 @ [simulatedChanged]"
      by (auto simp: setSimulated_def split: sum.splits)
    from init_frame [OF i] h show ?thesis by simp
  qed
  then show "m_lastKnownHeading s' = m_lastKnownHeading s"
    and "list_all (\<lambda>x. \<not> is_update x) sigs" by simp_all
qed

lemma on_positionUpdated_state: "fst (on_positionUpdated update s) = s"
  by (cases "coord_type (coordinate update)") (simp_all add: on_positionUpdated_def Let_def)

lemma on_readingChanged_state: "fst (on_readingChanged reading s) = s"
  by (simp add: on_readingChanged_def split: option.splits)

lemma on_viewpointChanged_lastKnownHeading:
  "m_lastKnownHeading (fst (on_viewpointChanged h s)) = m_lastKnownHeading s"
  by (simp add: on_viewpointChanged_def Let_def)

lemma step_lastKnownHeading:
  assumes "step env a s = Inr (s', sigs)" and "\<not> is_simulator_update a"
  shows "m_lastKnownHeading s' = m_lastKnownHeading s"
proof (cases a)
  case (SetEnabled b)
  with assms show ?thesis by (simp add: setEnabled_frame(1))
next
  case (SetSimulated b)
  with assms show ?thesis by (simp add: setSimulated_frame(1))
next
  case (SetGpxFilePath p)
  with assms show ?thesis by (simp add: setGpxFilePath_frame(1))
next
  case LocationOverlay
  with assms show ?thesis by (auto simp: locationOverlay_def split: if_splits)
next
  case (SimulatorUpdate pos h)
  with assms show ?thesis by simp
next
  case (PositionUpdate u)
  with assms have "s' = fst (on_positionUpdated u s)" by (metis fst_conv step.simps(6) sum.inject(2))
  then show ?thesis by (simp add: on_positionUpdated_state)
next
  case (CompassChange r)
  with assms have "s' = fst (on_readingChanged r s)" by (metis fst_conv step.simps(7) sum.inject(2))
  then show ?thesis by (simp add: on_readingChanged_state)
next
  case (ViewpointChange h)
  with assms have "s' = fst (on_viewpointChanged h s)" by (metis fst_conv step.simps(8) sum.inject(2))
  then show ?thesis by (simp add: on_viewpointChanged_lastKnownHeading)
qed

lemma run_lastKnownHeading:
  "run env as s = Inr (s', sigs) \<Longrightarrow> list_all (\<lambda>a. \<not> is_simulator_update a) as \<Longrightarrow>
     m_lastKnownHeading s' = m_lastKnownHeading s"
proof (induction as arbitrary: s sigs)
  case Nil
  then show ?case by simp
next
  case (Cons a as)
  from Cons.prems(1) obtain s1 sigs1 sigs2 where
    st: "step env a s = Inr (s1, sigs1)" and rn: "run env as s1 = Inr (s', sigs2)"
    by (auto split: sum.splits)
  from Cons.prems(2) have na: "\<not> is_simulator_update a"
    and nas: "list_all (\<lambda>a. \<not> is_simulator_update a) as" by simp_all
  from Cons.IH [OF rn nas] step_lastKnownHeading [OF st na] show ?case by simp
qed

section \<open>Relative heading\<close>

text \<open>
  Claim C1, as the code has it for the simulated producer: on every simulated position update
  the relative heading that is emitted is the absolute heading minus the last accepted viewer
  heading, as it stands. It is not reduced modulo 360: it differs from the reduced value by a
  whole number of turns, so it may lie outside the range from 0 up to 360.
\<close>

theorem relative_heading_simulated_update:
  "on_positionUpdateAvailable pos heading s =
     (s\<lparr>m_lastKnownHeading := heading\<rparr>,
      [positionChanged pos, headingChanged (Finite heading),
       relativeHeadingChanged (heading - m_lastViewHeading s)])
   \<and> heading - m_lastViewHeading s =
       spec_relativeHeading heading (m_lastViewHeading s)
         + 360 * of_int \<lfloor>(heading - m_lastViewHeading s) / 360\<rfloor>"
  by (simp add: on_positionUpdateAvailable_def spec_relativeHeading_def)

text \<open>
  Claim C1 as stated fails. With the viewer at 20 a simulated heading of 10 is published as the
  relative heading -10, where the reduced difference is 350. With the last known heading 90
  and updates off, turning the viewer to 45 publishes 135, where the reduced difference is 45.
\<close>

theorem relative_heading_not_reduced:
  "snd (on_positionUpdateAvailable monterey 10 replaying) =
     [positionChanged monterey, headingChanged (Finite 10), relativeHeadingChanged (- 10)]
   \<and> spec_relativeHeading 10 (m_lastViewHeading replaying) = 350
   \<and> snd (on_viewpointChanged 45 (idle\<lparr>m_lastKnownHeading := 90\<rparr>)) =
       [relativeHeadingChanged 135]
   \<and> spec_relativeHeading 90 45 = 45"
  by (simp add: on_positionUpdateAvailable_def on_viewpointChanged_def replaying_def idle_def
      spec_relativeHeading_def double_sub_whole double_0_1_value)

section \<open>Switching the mode\<close>

text \<open>
  Claim C2, as the code has it: \<^verbatim>\<open>setSimulated\<close> always returns, sets the mode flag, and
  neither stops nor starts a producer. The position source and the track-log player are
  running after the call exactly when they were running before it.
\<close>

theorem setSimulated_keeps_producers:
  "\<exists>s' sigs. setSimulated env simulated s = Inr (s', sigs)
      \<and> m_simulated s' = simulated
      \<and> live_started s' = live_started s
      \<and> simulator_started s' = simulator_started s"
  by (cases "m_simulator s")
     (auto simp: setSimulated_def init_simulator_absent init_simulator_present
        live_started_def simulator_started_def setGpxFile_def new_GPXLocationSimulator_def)

text \<open>
  Claim C2 as stated fails. Switching a running Live controller to Simulated leaves the
  position source running and the player idle; turning updates off and on again then starts
  the player while the position source still runs, so both producers are started.
\<close>

theorem mode_switch_leaves_producer_running:
  "setSimulated env_device True live_running =
     Inr (switched, [gpxFilePathChanged, simulatedChanged])
   \<and> live_started switched \<and> \<not> simulator_started switched
   \<and> run env_device [SetSimulated True, SetEnabled False, SetEnabled True] live_running =
       Inr (both_running, [gpxFilePathChanged, simulatedChanged, enabledChanged, enabledChanged])
   \<and> live_started both_running \<and> simulator_started both_running"
  by (simp add: setSimulated_def setEnabled_def init_simulator_absent init_simulator_present
      live_started_def simulator_started_def setGpxFile_def new_GPXLocationSimulator_def
      live_running_def idle_def switched_def both_running_def env_device_def
      startUpdates_def stopUpdates_def)

text \<open>
  Claim C3, as the code has it: entering Simulated mode with no simulator made yet, no track
  log set and the packaged log missing returns normally with the mode set to Simulated. The
  call emits no position or heading update and leaves the player idle.
\<close>

theorem setSimulated_without_log_succeeds:
  assumes "m_simulator s = None" and "m_gpxFilePath s = []"
    and "\<not> fileExists env (dataPath env @ ''/MontereyMounted.gpx'')"
  shows "\<exists>s' sigs. setSimulated env True s = Inr (s', sigs)
           \<and> m_simulated s'
           \<and> list_all (\<lambda>x. \<not> is_update x) sigs
           \<and> \<not> simulator_started s' \<and> live_started s' = live_started s"
  using assms
  by (auto simp: setSimulated_def init_simulator_absent setGpxFile_def
      new_GPXLocationSimulator_def simulator_started_def live_started_def)

theorem setSimulated_without_log_succeeds_witness:
  "m_simulator idle = None \<and> m_gpxFilePath idle = []
   \<and> \<not> fileExists env_bare (dataPath env_bare @ ''/MontereyMounted.gpx'')
   \<and> (\<exists>s' sigs. setSimulated env_bare True idle = Inr (s', sigs)
           \<and> m_simulated s'
           \<and> list_all (\<lambda>x. \<not> is_update x) sigs
           \<and> \<not> simulator_started s' \<and> live_started s' = live_started idle)"
proof -
  have a: "m_simulator idle = None" by (simp add: idle_def)
  have b: "m_gpxFilePath idle = []" by (simp add: idle_def)
  have c: "\<not> fileExists env_bare (dataPath env_bare @ ''/MontereyMounted.gpx'')"
    by (simp add: env_bare_def)
  from setSimulated_without_log_succeeds [OF a b c] a b c show ?thesis by blast
qed

text \<open>
  Claim C3 as stated fails: on the bare device, with nothing configured, the switch to
  Simulated mode is carried out and reports its two change notifications; no error is
  returned.
\<close>

theorem setSimulated_bare_no_error:
  "setSimulated env_bare True idle = Inr (no_log, [gpxFilePathChanged, simulatedChanged])
   \<and> m_simulated no_log"
  by (simp add: setSimulated_def init_simulator_absent setGpxFile_def
      new_GPXLocationSimulator_def idle_def no_log_def env_bare_def)

section \<open>Viewer heading\<close>

text \<open>
  Claim C4, as the code has it: a change of the viewer heading is accepted exactly when the
  magnitude of the difference to the last accepted viewer heading, computed in doubles, is not
  below the double 0.1, whether updates are on or off; that is, exactly when the change is at
  least 14411518807585587 / 2 ^ 57, the point from which the computed difference rounds to
  the double 0.1 or more. One relative heading is published exactly when the change is
  accepted and updates are off; otherwise nothing is published.
\<close>

theorem viewpoint_republish_iff:
  "(\<exists>r. snd (on_viewpointChanged sceneViewHeading s) = [relativeHeadingChanged r])
     = (\<not> double_less (double_abs (double_sub (m_lastViewHeading s) sceneViewHeading)) double_0_1
        \<and> \<not> m_enabled s)
   \<and> (snd (on_viewpointChanged sceneViewHeading s) = [])
     = (double_less (double_abs (double_sub (m_lastViewHeading s) sceneViewHeading)) double_0_1
        \<or> m_enabled s)
   \<and> m_lastViewHeading (fst (on_viewpointChanged sceneViewHeading s))
     = (if double_less (double_abs (double_sub (m_lastViewHeading s) sceneViewHeading)) double_0_1
        then m_lastViewHeading s else sceneViewHeading)
   \<and> double_less (double_abs (double_sub (m_lastViewHeading s) sceneViewHeading)) double_0_1
     = (\<bar>m_lastViewHeading s - sceneViewHeading\<bar> < 14411518807585587 / 2 ^ 57)"
proof -
  have "double_less (double_abs (double_sub (m_lastViewHeading s) sceneViewHeading)) double_0_1
     = (\<bar>m_lastViewHeading s - sceneViewHeading\<bar> < 14411518807585587 / 2 ^ 57)"
    unfolding double_sub_def by (rule below_double_0_1_iff)
  moreover have
    "(\<exists>r. snd (on_viewpointChanged sceneViewHeading s) = [relativeHeadingChanged r])
     = (\<not> double_less (double_abs (double_sub (m_lastViewHeading s) sceneViewHeading)) double_0_1
        \<and> \<not> m_enabled s)"
    by (auto simp: on_viewpointChanged_def Let_def)
  moreover have
    "(snd (on_viewpointChanged sceneViewHeading s) = [])
     = (double_less (double_abs (double_sub (m_lastViewHeading s) sceneViewHeading)) double_0_1
        \<or> m_enabled s)"
    by (auto simp: on_viewpointChanged_def Let_def)
  moreover have
    "m_lastViewHeading (fst (on_viewpointChanged sceneViewHeading s))
     = (if double_less (double_abs (double_sub (m_lastViewHeading s) sceneViewHeading)) double_0_1
        then m_lastViewHeading s else sceneViewHeading)"
    by (simp add: on_viewpointChanged_def Let_def)
  ultimately show ?thesis by (simp only: simp_thms)
qed

theorem viewpoint_republish_iff_witness:
  "(\<exists>r. snd (on_viewpointChanged 90 idle) = [relativeHeadingChanged r])
   \<and> snd (on_viewpointChanged 90 live_running) = []
   \<and> snd (on_viewpointChanged (1 / 16) idle) = []
   \<and> m_lastViewHeading (fst (on_viewpointChanged 90 live_running)) = 90
   \<and> (\<exists>r. snd (on_viewpointChanged (1 / 8) nudged) = [relativeHeadingChanged r])"
  using viewpoint_republish_iff [of 90 idle] viewpoint_republish_iff [of 90 live_running]
    viewpoint_republish_iff [of "1 / 16" idle] viewpoint_republish_iff [of "1 / 8" nudged]
  by (simp add: idle_def live_running_def nudged_def double_sub_whole double_sub_nudged
      double_0_1_value)

text \<open>
  Claim C4 as stated fails. With updates on, turning the viewer from 0 to 90 is accepted but
  nothing is published. With updates off, turning it from the double 0.025 to 0.125, a change
  of less than 0.1, is published.
\<close>

theorem viewpoint_change_not_republished:
  "on_viewpointChanged 90 live_running = (live_running\<lparr>m_lastViewHeading := 90\<rparr>, [])
   \<and> m_enabled live_running \<and> m_lastViewHeading live_running = 0
   \<and> on_viewpointChanged (1 / 8) nudged =
        (nudged\<lparr>m_lastViewHeading := 1 / 8\<rparr>, [relativeHeadingChanged (1 / 8)])
   \<and> \<not> m_enabled nudged \<and> \<bar>m_lastViewHeading nudged - 1 / 8\<bar> < 1 / 10"
  by (simp add: on_viewpointChanged_def live_running_def idle_def nudged_def double_sub_whole
      double_sub_nudged double_0_1_value)
    (simp add: double_0_025_def)

section \<open>The Live producer\<close>

text \<open>
  Claim C5 at its failing input: on a device without a default position source, turning
  updates on in Live mode calls \<^verbatim>\<open>startUpdates\<close> through the null pointer that
  \<^verbatim>\<open>createDefaultSource\<close> returned.
\<close>

theorem setEnabled_live_without_source:
  "setEnabled env_bare True idle = Inl NullDereference"
  by (simp add: setEnabled_def init_live createDefaultSource_def idle_def env_bare_def)

text \<open>
  Claim C6, as the declaration has it: the publisher's members start with the enabled flag
  set, the current location in use, no port (-1) and an interval of 3000 milliseconds.
\<close>

theorem LocationBroadcast_starts_enabled:
  "m_enabled_lb LocationBroadcast_members = True
   \<and> m_useCurrentLocation LocationBroadcast_members = True
   \<and> m_udpPort LocationBroadcast_members = - 1
   \<and> m_frequency LocationBroadcast_members = 3000"
  by (simp add: LocationBroadcast_members_def)

text \<open>Claim C6 as stated fails: the enabled flag of a new publisher is not false.\<close>

theorem LocationBroadcast_not_disabled:
  "m_enabled_lb LocationBroadcast_members \<noteq> False"
  by (simp add: LocationBroadcast_members_def)

text \<open>
  Claim C7: a Live positioning update that is invalid, or whose coordinate is invalid or of the
  invalid type, emits nothing; any other update emits one position built from longitude and
  latitude in WGS84, with the altitude exactly when the coordinate is three-dimensional. The
  controller's state is unchanged in every case.
\<close>

theorem live_fix_classified:
  "on_positionUpdated update s =
     (s, if \<not> info_isValid update \<or> \<not> coord_isValid (coordinate update)
              \<or> coord_type (coordinate update) = InvalidCoordinate
         then []
         else [positionChanged
                 \<lparr>px = longitude (coordinate update), py = latitude (coordinate update),
                  pz = (if coord_type (coordinate update) = Coordinate3D
                        then Some (altitude (coordinate update)) else None),
                  psr = Wgs84\<rparr>])"
  by (cases "coord_type (coordinate update)") (simp_all add: on_positionUpdated_def Let_def)

theorem live_fix_classified_witness:
  "on_positionUpdated fix3d idle =
     (idle, [positionChanged \<lparr>px = - 117, py = 34, pz = Some 250, psr = Wgs84\<rparr>])
   \<and> on_positionUpdated fix_bad idle = (idle, [])"
  using live_fix_classified [of fix3d idle] live_fix_classified [of fix_bad idle]
  by (simp add: fix3d_def fix_bad_def)

section \<open>Headings\<close>




text \<open>
  Claim C9: over any sequence of calls and events that contains no update from the track-log
  player, the stored last known heading stays what it was. A compass reading emits its azimuth
  as a heading change and leaves the state alone; an update from the player stores its heading.
\<close>

theorem lastKnownHeading_only_simulator:
  "(run env as s = Inr (s', sigs) \<longrightarrow> list_all (\<lambda>a. \<not> is_simulator_update a) as \<longrightarrow>
       m_lastKnownHeading s' = m_lastKnownHeading s)
   \<and> on_readingChanged (Some r) s = (s, [headingChanged (azimuth r)])
   \<and> m_lastKnownHeading (fst (on_positionUpdateAvailable pos heading s)) = heading"
  by (simp add: run_lastKnownHeading on_readingChanged_def on_positionUpdateAvailable_def)

theorem lastKnownHeading_only_simulator_witness:
  "run env_device [CompassChange (Some north_east), ViewpointChange 30] idle =
     Inr (idle\<lparr>m_lastViewHeading := 30\<rparr>,
          [headingChanged (Finite 45), relativeHeadingChanged 30])
   \<and> list_all (\<lambda>a. \<not> is_simulator_update a) [CompassChange (Some north_east), ViewpointChange 30]
   \<and> m_lastKnownHeading (idle\<lparr>m_lastViewHeading := 30\<rparr>) = m_lastKnownHeading idle
   \<and> on_readingChanged (Some north_east) idle = (idle, [headingChanged (Finite 45)])
   \<and> m_lastKnownHeading (fst (on_positionUpdateAvailable monterey 10 idle)) = 10"
proof -
  have r: "run env_device [CompassChange (Some north_east), ViewpointChange 30] idle =
     Inr (idle\<lparr>m_lastViewHeading := 30\<rparr>,
          [headingChanged (Finite 45), relativeHeadingChanged 30])"
    by (simp add: on_readingChanged_def on_viewpointChanged_def north_east_def idle_def
        double_sub_whole double_0_1_value)
  have n: "list_all (\<lambda>a. \<not> is_simulator_update a)
             [CompassChange (Some north_east), ViewpointChange 30]"
    by simp
  have az: "azimuth north_east = Finite 45" by (simp add: north_east_def)
  from lastKnownHeading_only_simulator [of env_device "[CompassChange (Some north_east), ViewpointChange 30]" idle
      "idle\<lparr>m_lastViewHeading := 30\<rparr>"
      "[headingChanged (Finite 45), relativeHeadingChanged 30]"
      north_east monterey 10] r n az
  show ?thesis by simp
qed

section \<open>The track log\<close>

text \<open>
  Claim C10: \<^verbatim>\<open>setGpxFilePath\<close> with the stored path returns with the state untouched and
  nothing emitted. With another path it returns with a simulator in place that is pointed at
  the new file, the new path stored and the mode flag as it was, Live mode included.
\<close>

theorem setGpxFilePath_same_or_constructs:
  "(m_gpxFilePath s = p \<longrightarrow> setGpxFilePath env p s = Inr (s, []))
   \<and> (m_gpxFilePath s \<noteq> p \<longrightarrow>
        (\<exists>s' sigs. setGpxFilePath env p s = Inr (s', sigs)
           \<and> (\<exists>sim. m_simulator s' = Some sim \<and> sim_gpxFile sim = p)
           \<and> m_gpxFilePath s' = p \<and> m_simulated s' = m_simulated s))"
proof (cases "m_simulator s")
  case None
  then show ?thesis
    by (auto simp: setGpxFilePath.simps [of env p s] init_simulator_absent setGpxFile_def)
next
  case (Some sim)
  then show ?thesis
    by (auto simp: setGpxFilePath_present setGpxFile_def)
qed

theorem setGpxFilePath_same_or_constructs_witness:
  "setGpxFilePath env_device ''/data/MontereyMounted.gpx'' replaying = Inr (replaying, [])
   \<and> \<not> m_simulated idle
   \<and> (\<exists>s' sigs. setGpxFilePath env_device ''/tracks/a.gpx'' idle = Inr (s', sigs)
         \<and> (\<exists>sim. m_simulator s' = Some sim \<and> sim_gpxFile sim = ''/tracks/a.gpx'')
         \<and> m_gpxFilePath s' = ''/tracks/a.gpx'' \<and> m_simulated s' = m_simulated idle)"
proof -
  have same: "m_gpxFilePath replaying = ''/data/MontereyMounted.gpx''"
    by (simp add: replaying_def idle_def)
  have other: "m_gpxFilePath idle \<noteq> ''/tracks/a.gpx''" and live: "\<not> m_simulated idle"
    by (simp_all add: idle_def)
  from setGpxFilePath_same_or_constructs [of replaying "''/data/MontereyMounted.gpx''" env_device]
    setGpxFilePath_same_or_constructs [of idle "''/tracks/a.gpx''" env_device] same other live
  show ?thesis by blast
qed

end
